theory Spec2Isabelle
  imports Main "HOL-Library.Sublist"
begin

section \<open>The User table and its storage engine\<close>

text \<open>
  The command set of \<^verbatim>\<open>app/cli.py\<close> works on one table of User records. A table is
  the list of its rows in storage order (the order an unordered \<^verbatim>\<open>SELECT\<close> scans
  them); strings are byte lists. A Python object of class \<^verbatim>\<open>User\<close> that has not been
  inserted yet has no identifier, a persisted one carries the one the storage gave it.
\<close>

record user =
  uid :: "nat option"
  username :: string
  email :: string
  password :: string

type_synonym table = "user list"

datatype db_error = IntegrityError

text \<open>
  Modelled from the spec: the constructor of the class \<^verbatim>\<open>User\<close> of \<^verbatim>\<open>app/models.py\<close>,
  which is not among the sources. It takes username, email and password in this order
  (the calls in \<^verbatim>\<open>cli.py\<close>); the password is stored as given, and the identifier is
  assigned by the storage on insert.
\<close>

definition User :: "string \<Rightarrow> string \<Rightarrow> string \<Rightarrow> user" where
  "User u e p = \<lparr>uid = None, username = u, email = e, password = p\<rparr>"

definition row_id :: "user \<Rightarrow> nat" where
  "row_id r = (case uid r of None \<Rightarrow> 0 | Some n \<Rightarrow> n)"

text \<open>The identifier of the next inserted row: one more than the largest one in use.\<close>

definition next_id :: "table \<Rightarrow> nat" where
  "next_id t = Suc (foldr max (map row_id t) 0)"

text \<open>
  Modelled from the spec: the schema of the User table, declared in \<^verbatim>\<open>app/models.py\<close>,
  has a uniqueness constraint on username and one on email. The storage engine refuses,
  with \<^verbatim>\<open>IntegrityError\<close>, a flush that would break either; the comparison is exact
  string equality.

  \<open>commit_insert\<close> is \<^verbatim>\<open>db.add(obj); db.commit()\<close> for a new object: the row is appended
  in storage order and gets its identifier. \<open>commit_update\<close> is the same pair of calls for
  a persistent object whose attributes were changed: the row with its identifier is
  replaced. \<open>commit_delete\<close> is \<^verbatim>\<open>db.delete(obj); db.commit()\<close>.
\<close>

definition commit_insert :: "table \<Rightarrow> user \<Rightarrow> db_error + (table \<times> user)" where
  "commit_insert t r =
     (if \<exists>x \<in> set t. username x = username r \<or> email x = email r
      then Inl IntegrityError
      else (let r' = r\<lparr>uid := Some (next_id t)\<rparr> in Inr (t @ [r'], r')))"

definition commit_update :: "table \<Rightarrow> user \<Rightarrow> db_error + table" where
  "commit_update t r =
     (if \<exists>x \<in> set t. uid x \<noteq> uid r \<and> (username x = username r \<or> email x = email r)
      then Inl IntegrityError
      else Inr (map (\<lambda>x. if uid x = uid r then r else x) t))"

definition commit_delete :: "table \<Rightarrow> user \<Rightarrow> table" where
  "commit_delete t r = filter (\<lambda>x. uid x \<noteq> uid r) t"

text \<open>\<^verbatim>\<open>db.exec(select(User).where(User.username == username)).first()\<close>\<close>

definition select_by_username :: "table \<Rightarrow> string \<Rightarrow> user option" where
  "select_by_username t u = find (\<lambda>r. username r = u) t"

text \<open>
  Modelled from the spec: \<^verbatim>\<open>drop_all\<close> and \<^verbatim>\<open>create_db_and_tables\<close> of
  \<^verbatim>\<open>app/database.py\<close>, which is not among the sources: drop all tables, then recreate
  the schema. Dropping loses every row, whatever the table held; the recreated table
  is empty.
\<close>

definition drop_all :: "table \<Rightarrow> table" where
  "drop_all t = []"

definition create_db_and_tables :: "table \<Rightarrow> table" where
  "create_db_and_tables t = t"

subsection \<open>The pattern match of \<^verbatim>\<open>ilike\<close>\<close>

text \<open>
  \<^verbatim>\<open>column.ilike(pattern)\<close> compares the lower-cased column with the lower-cased
  pattern by the SQL operator \<^verbatim>\<open>LIKE\<close>: in the pattern \<^verbatim>\<open>%\<close> stands for any run of
  characters, \<^verbatim>\<open>_\<close> for any one character, every other character for itself. There is
  no escape character, since the call gives none. Lower-casing folds the letters A to Z
  and leaves every other byte as it is, as the \<^verbatim>\<open>lower\<close> of SQLite does.
\<close>

definition lower_char :: "char \<Rightarrow> char" where
  "lower_char c =
     (let n = (of_char c :: nat) in if 65 \<le> n \<and> n \<le> 90 then char_of (n + 32) else c)"

definition lower :: "string \<Rightarrow> string" where
  "lower s = map lower_char s"

fun like :: "string \<Rightarrow> string \<Rightarrow> bool" where
  "like [] [] = True"
| "like [] (c # cs) = False"
| "like (p # ps) [] = (p = CHR ''%'' \<and> like ps [])"
| "like (p # ps) (c # cs) =
     (if p = CHR ''%'' then like ps (c # cs) \<or> like (p # ps) cs
      else if p = CHR ''_'' then like ps cs
      else p = c \<and> like ps cs)"

definition ilike :: "string \<Rightarrow> string \<Rightarrow> bool" where
  "ilike col pat = like (lower pat) (lower col)"

section \<open>The command set\<close>

text \<open>
  A command starts from the table, prints lines and ends either normally or with an
  error that nothing caught. \<^verbatim>\<open>print(user)\<close> is the line \<open>Rec user\<close>: the text comes
  from \<^verbatim>\<open>User.__str__\<close>, which is not among the sources. When an error leaves the
  \<^verbatim>\<open>with\<close> block, the session is closed without a commit, so the table is the one the
  command started from.
\<close>

datatype line = Text string | Rec user

record outcome =
  db :: table
  printed :: "line list"
  raised :: "db_error option"

definition initialize :: "table \<Rightarrow> outcome" where
  "initialize t =
     (let t1 = drop_all t;
          t2 = create_db_and_tables t1;
          bob = User ''bob'' ''bob@mail.com'' ''bobpass''
      in case commit_insert t2 bob of
           Inl err \<Rightarrow> \<lparr>db = t2, printed = [], raised = Some err\<rparr>
         | Inr (t3, bob') \<Rightarrow> \<lparr>db = t3, printed = [Text ''Database Initialized''], raised = None\<rparr>)"

definition get_user :: "table \<Rightarrow> string \<Rightarrow> outcome" where
  "get_user t u =
     (case select_by_username t u of
        None \<Rightarrow> \<lparr>db = t, printed = [Text (u @ '' not found!'')], raised = None\<rparr>
      | Some r \<Rightarrow> \<lparr>db = t, printed = [Rec r], raised = None\<rparr>)"

definition get_all_users :: "table \<Rightarrow> outcome" where
  "get_all_users t =
     (let all_users = t
      in if all_users = [] then \<lparr>db = t, printed = [Text ''No users found''], raised = None\<rparr>
         else \<lparr>db = t, printed = map Rec all_users, raised = None\<rparr>)"

definition change_email :: "table \<Rightarrow> string \<Rightarrow> string \<Rightarrow> outcome" where
  "change_email t u new_email =
     (case select_by_username t u of
        None \<Rightarrow>
          \<lparr>db = t, printed = [Text (u @ '' not found! Unable to update email.'')],
           raised = None\<rparr>
      | Some r \<Rightarrow>
          (let r' = r\<lparr>email := new_email\<rparr>
           in case commit_update t r' of
                Inl err \<Rightarrow> \<lparr>db = t, printed = [], raised = Some err\<rparr>
              | Inr t' \<Rightarrow>
                  \<lparr>db = t',
                   printed = [Text (''Updated '' @ username r' @ [CHR 0x27] @ ''s email to ''
                                    @ email r')],
                   raised = None\<rparr>))"

definition create_user :: "table \<Rightarrow> string \<Rightarrow> string \<Rightarrow> string \<Rightarrow> outcome" where
  "create_user t u e p =
     (let newuser = User u e p
      in case commit_insert t newuser of
           Inl IntegrityError \<Rightarrow>
             \<lparr>db = t, printed = [Text ''Username or email already taken!''], raised = None\<rparr>
         | Inr (t', r) \<Rightarrow> \<lparr>db = t', printed = [Rec r], raised = None\<rparr>)"

definition delete_user :: "table \<Rightarrow> string \<Rightarrow> outcome" where
  "delete_user t u =
     (case select_by_username t u of
        None \<Rightarrow>
          \<lparr>db = t, printed = [Text (u @ '' not found! Unable to delete user.'')],
           raised = None\<rparr>
      | Some r \<Rightarrow>
          \<lparr>db = commit_delete t r, printed = [Text (u @ '' deleted'')], raised = None\<rparr>)"

definition get_user_from_partial :: "table \<Rightarrow> string \<Rightarrow> outcome" where
  "get_user_from_partial t query =
     (let pat = ''%'' @ query @ ''%'';
          matching_users = filter (\<lambda>r. ilike (email r) pat \<or> ilike (username r) pat) t
      in if matching_users = []
         then \<lparr>db = t, printed = [Text (''No matches for '' @ [CHR 0x27] @ query
                                        @ [CHR 0x27] @ ''.'')],
               raised = None\<rparr>
         else \<lparr>db = t, printed = map Rec matching_users, raised = None\<rparr>)"

text \<open>
  \<^verbatim>\<open>select(User).offset(offset).limit(limit)\<close> has no \<^verbatim>\<open>ORDER BY\<close>: the rows come in
  storage order. Both numbers are Python integers; as in SQLite, a negative offset skips
  nothing and a negative limit bounds nothing.
\<close>

definition page :: "table \<Rightarrow> int \<Rightarrow> int \<Rightarrow> table" where
  "page t limit offset =
     (let rest = drop (nat offset) t in if limit < 0 then rest else take (nat limit) rest)"

definition get_first_n_users :: "table \<Rightarrow> int \<Rightarrow> int \<Rightarrow> outcome" where
  "get_first_n_users t limit offset =
     (let users = page t limit offset
      in if users = [] then \<lparr>db = t, printed = [Text ''No users found.''], raised = None\<rparr>
         else \<lparr>db = t, printed = map Rec users, raised = None\<rparr>)"

subsection \<open>Runs of commands\<close>

datatype command =
    Initialize
  | GetUser string
  | GetAllUsers
  | ChangeEmail string string
  | CreateUser string string string
  | DeleteUser string
  | GetUserFromPartial string
  | GetFirstNUsers int int

fun run :: "command \<Rightarrow> table \<Rightarrow> outcome" where
  "run Initialize t = initialize t"
| "run (GetUser u) t = get_user t u"
| "run GetAllUsers t = get_all_users t"
| "run (ChangeEmail u e) t = change_email t u e"
| "run (CreateUser u e p) t = create_user t u e p"
| "run (DeleteUser u) t = delete_user t u"
| "run (GetUserFromPartial q) t = get_user_from_partial t q"
| "run (GetFirstNUsers l off) t = get_first_n_users t l off"

text \<open>
  The reachable states: the table \<^verbatim>\<open>initialize\<close> leaves, from whatever was there
  before, and every table a command leaves when run on a reachable one.
\<close>

inductive reachable :: "table \<Rightarrow> bool" where
  reachable_init: "reachable (db (initialize t))"
| reachable_step: "reachable t \<Longrightarrow> reachable (db (run c t))"

text \<open>
  The invariant of the table: every row has an identifier, and identifiers, usernames
  and emails are pairwise distinct.
\<close>

definition db_invariant :: "table \<Rightarrow> bool" where
  "db_invariant t =
     (list_all (\<lambda>r. uid r \<noteq> None) t \<and> distinct (map uid t)
      \<and> distinct (map username t) \<and> distinct (map email t))"

text \<open>
  The specification's reading of the partial match, for comparison with \<open>ilike\<close>:
  the query is a substring of the field once both are lower-cased.
\<close>

definition ci_substring :: "string \<Rightarrow> string \<Rightarrow> bool" where
  "ci_substring q s = sublist (lower q) (lower s)"

section \<open>Lemmas about the storage engine\<close>

lemma find_append_cases:
  "find P (xs @ ys) = (case find P xs of None \<Rightarrow> find P ys | Some x \<Rightarrow> Some x)"
  by (induction xs) auto

lemma select_none: "(\<forall>r \<in> set t. username r \<noteq> u) \<Longrightarrow> select_by_username t u = None"
  by (simp add: select_by_username_def find_None_iff)

lemma select_some:
  "select_by_username t u = Some r \<Longrightarrow> r \<in> set t \<and> username r = u"
  by (auto simp: select_by_username_def find_Some_iff)

lemma select_present:
  "u \<in> username ` set t \<Longrightarrow> \<exists>r. select_by_username t u = Some r"
  by (cases "select_by_username t u") (auto simp: select_by_username_def find_None_iff)

lemma row_id_less_next_id: "r \<in> set t \<Longrightarrow> row_id r < next_id t"
  unfolding next_id_def by (induction t) auto

lemma next_id_fresh:
  assumes "list_all (\<lambda>r. uid r \<noteq> None) t"
  shows "Some (next_id t) \<notin> uid ` set t"
proof
  assume "Some (next_id t) \<in> uid ` set t"
  then obtain r where r: "r \<in> set t" "uid r = Some (next_id t)" by auto
  then have "row_id r = next_id t" by (simp add: row_id_def)
  with row_id_less_next_id [OF r(1)] show False by simp
qed

lemma commit_insert_invariant:
  assumes "db_invariant t" and "commit_insert t r = Inr (t', r')"
  shows "db_invariant t'"
proof -
  from assms(2) have fresh: "\<forall>x \<in> set t. username x \<noteq> username r \<and> email x \<noteq> email r"
    and t': "t' = t @ [r\<lparr>uid := Some (next_id t)\<rparr>]"
    by (auto simp: commit_insert_def Let_def split: if_splits)
  from assms(1) have "Some (next_id t) \<notin> uid ` set t"
    by (simp add: db_invariant_def next_id_fresh)
  with assms(1) fresh show ?thesis
    by (auto simp: db_invariant_def t')
qed

lemma distinct_uid_eq:
  "distinct (map uid t) \<Longrightarrow> x \<in> set t \<Longrightarrow> y \<in> set t \<Longrightarrow> uid x = uid y \<Longrightarrow> x = y"
  by (meson distinct_map inj_onD)

lemma distinct_update_email:
  "distinct (map uid t) \<Longrightarrow> distinct (map email t) \<Longrightarrow>
   \<forall>x \<in> set t. uid x \<noteq> k \<longrightarrow> email x \<noteq> e \<Longrightarrow>
   distinct (map (\<lambda>x. if uid x = k then e else email x) t)"
  by (induction t) (auto simp: image_iff)

lemma commit_update_invariant:
  assumes inv: "db_invariant t" and r: "r \<in> set t"
    and upd: "commit_update t (r\<lparr>email := e\<rparr>) = Inr t'"
  shows "db_invariant t'"
proof -
  let ?f = "\<lambda>x. if uid x = uid r then r\<lparr>email := e\<rparr> else x"
  from upd have free: "\<forall>x \<in> set t. uid x \<noteq> uid r \<longrightarrow> email x \<noteq> e"
    and t': "t' = map ?f t"
    by (auto simp: commit_update_def split: if_splits)
  from inv have du: "distinct (map uid t)" and dn: "distinct (map username t)"
    and de: "distinct (map email t)" and ids: "list_all (\<lambda>r. uid r \<noteq> None) t"
    by (simp_all add: db_invariant_def)
  have same: "\<And>x. x \<in> set t \<Longrightarrow> uid x = uid r \<Longrightarrow> x = r"
    using du r by (blast dest: distinct_uid_eq)
  have "map uid t' = map uid t"
    by (simp add: t')
  moreover have "map username t' = map username t"
    using same by (auto simp: t')
  moreover have "map email t' = map (\<lambda>x. if uid x = uid r then e else email x) t"
    by (simp add: t')
  moreover have "list_all (\<lambda>r. uid r \<noteq> None) t'"
    using ids r by (auto simp: t' list_all_iff)
  ultimately show ?thesis
    using du dn de free by (simp add: db_invariant_def distinct_update_email)
qed

lemma commit_delete_invariant: "db_invariant t \<Longrightarrow> db_invariant (commit_delete t r)"
  by (auto simp: db_invariant_def commit_delete_def distinct_map_filter list_all_iff)

lemma initialize_eq:
  "initialize t =
     \<lparr>db = [\<lparr>uid = Some 1, username = ''bob'', email = ''bob@mail.com'',
             password = ''bobpass''\<rparr>],
      printed = [Text ''Database Initialized''], raised = None\<rparr>"
  by (simp add: initialize_def drop_all_def create_db_and_tables_def commit_insert_def
      User_def next_id_def Let_def)

lemma initialize_invariant: "db_invariant (db (initialize t))"
  by (simp add: initialize_eq db_invariant_def)

lemma create_user_invariant: "db_invariant t \<Longrightarrow> db_invariant (db (create_user t u e p))"
proof (cases "commit_insert t (User u e p)")
  case (Inl err)
  assume "db_invariant t"
  then show ?thesis using Inl by (cases err) (simp add: create_user_def)
next
  case (Inr pr)
  assume "db_invariant t"
  then show ?thesis using Inr commit_insert_invariant [of t "User u e p" "fst pr" "snd pr"]
    by (cases pr) (simp add: create_user_def)
qed

lemma change_email_invariant: "db_invariant t \<Longrightarrow> db_invariant (db (change_email t u e))"
  by (auto simp: change_email_def Let_def split: option.splits sum.splits
      dest: select_some intro: commit_update_invariant)

lemma delete_user_invariant: "db_invariant t \<Longrightarrow> db_invariant (db (delete_user t u))"
  by (simp add: delete_user_def commit_delete_invariant split: option.splits)

lemma run_invariant: "db_invariant t \<Longrightarrow> db_invariant (db (run c t))"
proof (cases c)
  case Initialize
  then show ?thesis by (simp add: initialize_invariant)
next
  case (GetUser u)
  assume "db_invariant t"
  then show ?thesis using GetUser by (simp add: get_user_def split: option.splits)
next
  case GetAllUsers
  assume "db_invariant t"
  then show ?thesis using GetAllUsers by (auto simp: get_all_users_def)
next
  case (ChangeEmail u e)
  assume "db_invariant t"
  then show ?thesis using ChangeEmail by (simp add: change_email_invariant)
next
  case (CreateUser u e p)
  assume "db_invariant t"
  then show ?thesis using CreateUser by (simp add: create_user_invariant)
next
  case (DeleteUser u)
  assume "db_invariant t"
  then show ?thesis using DeleteUser by (simp add: delete_user_invariant)
next
  case (GetUserFromPartial q)
  assume "db_invariant t"
  then show ?thesis using GetUserFromPartial by (simp add: get_user_from_partial_def Let_def)
next
  case (GetFirstNUsers l off)
  assume "db_invariant t"
  then show ?thesis using GetFirstNUsers by (simp add: get_first_n_users_def Let_def)
qed

lemma reachable_invariant: "reachable t \<Longrightarrow> db_invariant t"
  by (induction rule: reachable.induct) (simp_all add: initialize_invariant run_invariant)


lemma like_percent_nil: "like ''%'' s"
  by (induction s) auto

lemma like_plain_percent:
  "CHR ''%'' \<notin> set ps \<Longrightarrow> CHR ''_'' \<notin> set ps \<Longrightarrow> like (ps @ ''%'') s = prefix ps s"
proof (induction ps arbitrary: s)
  case Nil
  then show ?case by (simp add: like_percent_nil)
next
  case (Cons p ps)
  then show ?case by (cases s) auto
qed

lemma like_percent_Cons:
  "like (CHR ''%'' # ps) s = (\<exists>t. suffix t s \<and> like ps t)"
proof (induction s)
  case Nil
  then show ?case by simp
next
  case (Cons c cs)
  then show ?case by (auto simp: suffix_Cons)
qed

lemma like_substring:
  assumes "CHR ''%'' \<notin> set q" and "CHR ''_'' \<notin> set q"
  shows "like (''%'' @ q @ ''%'') s = sublist q s"
  using assms by (simp add: like_percent_Cons like_plain_percent sublist_altdef')

lemma lower_char_not_letter:
  assumes "lower_char c = w" and "(of_char w :: nat) < 97 \<or> 122 < (of_char w :: nat)"
  shows "c = w"
proof (cases "65 \<le> (of_char c :: nat) \<and> (of_char c :: nat) \<le> 90")
  case True
  with assms(1) have "w = char_of (of_char c + 32 :: nat)"
    by (simp add: lower_char_def)
  then have "(of_char w :: nat) = (of_char c + 32) mod 256"
    by simp
  with True assms(2) show ?thesis by auto
next
  case False
  with assms(1) show ?thesis by (auto simp: lower_char_def)
qed

lemma lower_char_wildcard:
  "lower_char c = CHR ''%'' \<longleftrightarrow> c = CHR ''%''" "lower_char c = CHR ''_'' \<longleftrightarrow> c = CHR ''_''"
  using lower_char_not_letter [of c "CHR ''%''"] lower_char_not_letter [of c "CHR ''_''"]
  by (auto simp: lower_char_def)

lemma lower_no_wildcard:
  assumes "w = CHR ''%'' \<or> w = CHR ''_''" and "w \<notin> set q"
  shows "w \<notin> set (lower q)"
proof
  assume "w \<in> set (lower q)"
  then obtain c where c: "c \<in> set q" "lower_char c = w"
    by (auto simp: lower_def)
  with assms(1) have "c = w"
    by (metis lower_char_wildcard)
  with c assms(2) show False by simp
qed

lemma lower_pattern: "lower (''%'' @ q @ ''%'') = ''%'' @ lower q @ ''%''"
  by (simp add: lower_def lower_char_def)

lemma ilike_substring:
  assumes "CHR ''%'' \<notin> set q" and "CHR ''_'' \<notin> set q"
  shows "ilike s (''%'' @ q @ ''%'') = ci_substring q s"
  unfolding ilike_def ci_substring_def lower_pattern
  using assms by (intro like_substring lower_no_wildcard) simp_all

lemma like_all: "like ''%%'' s"
  by (induction s) auto

lemma ilike_empty: "ilike s ''%%''"
  using like_all [of "lower s"] by (simp add: ilike_def lower_def lower_char_def)

section \<open>The claims\<close>

text \<open>
  C1. When neither the username nor the email occurs in the table, \<^verbatim>\<open>create_user\<close>
  followed by \<^verbatim>\<open>get_user\<close> with that username prints a record whose username,
  email and password are the ones given. The row is the one appended to the table, with
  the next identifier.
\<close>

theorem create_user_then_get_user:
  assumes "\<forall>r \<in> set t. username r \<noteq> u \<and> email r \<noteq> e"
  shows "get_user (db (create_user t u e p)) u =
           \<lparr>db = t @ [\<lparr>uid = Some (next_id t), username = u, email = e, password = p\<rparr>],
            printed = [Rec \<lparr>uid = Some (next_id t), username = u, email = e, password = p\<rparr>],
            raised = None\<rparr>"
proof -
  from assms have "find (\<lambda>r. username r = u) t = None"
    by (simp add: find_None_iff)
  with assms show ?thesis
    by (simp add: create_user_def commit_insert_def User_def Let_def get_user_def
        select_by_username_def find_append_cases)
qed

theorem create_user_then_get_user_witness:
  "''alice'' \<notin> set (map username
       [\<lparr>uid = Some 1, username = ''bob'', email = ''bob@mail.com'', password = ''bobpass''\<rparr>])
   \<and> ''alice@mail.com'' \<notin> set (map email
       [\<lparr>uid = Some 1, username = ''bob'', email = ''bob@mail.com'', password = ''bobpass''\<rparr>])
   \<and> printed (get_user (db (create_user
        [\<lparr>uid = Some 1, username = ''bob'', email = ''bob@mail.com'', password = ''bobpass''\<rparr>]
        ''alice'' ''alice@mail.com'' ''secret'')) ''alice'')
     = [Rec \<lparr>uid = Some 2, username = ''alice'', email = ''alice@mail.com'',
             password = ''secret''\<rparr>]"
  using create_user_then_get_user [of
      "[\<lparr>uid = Some 1, username = ''bob'', email = ''bob@mail.com'', password = ''bobpass''\<rparr>]"
      "''alice''" "''alice@mail.com''" "''secret''"]
  by (simp add: next_id_def row_id_def)

text \<open>
  C2. When a row of the table already has the username, or already has the email,
  \<^verbatim>\<open>create_user\<close> prints the conflict message, leaves the table as it was (no new row,
  the same number of rows) and ends without an error.
\<close>

theorem create_user_conflict:
  assumes "\<exists>r \<in> set t. username r = u \<or> email r = e"
  shows "create_user t u e p =
           \<lparr>db = t, printed = [Text ''Username or email already taken!''], raised = None\<rparr>
         \<and> length (db (create_user t u e p)) = length t"
  using assms by (simp add: create_user_def commit_insert_def User_def)

theorem create_user_conflict_witness:
  "(\<exists>r \<in> set [\<lparr>uid = Some 1, username = ''bob'', email = ''bob@mail.com'',
                   password = ''bobpass''\<rparr>].
      username r = ''rob'' \<or> email r = ''bob@mail.com'')
   \<and> create_user
        [\<lparr>uid = Some 1, username = ''bob'', email = ''bob@mail.com'', password = ''bobpass''\<rparr>]
        ''rob'' ''bob@mail.com'' ''robpass''
     = \<lparr>db = [\<lparr>uid = Some 1, username = ''bob'', email = ''bob@mail.com'',
                password = ''bobpass''\<rparr>],
        printed = [Text ''Username or email already taken!''], raised = None\<rparr>"
  using create_user_conflict [of
      "[\<lparr>uid = Some 1, username = ''bob'', email = ''bob@mail.com'', password = ''bobpass''\<rparr>]"
      "''rob''" "''bob@mail.com''" "''robpass''"]
  by simp

text \<open>
  C7. When no row of the table has the username, \<^verbatim>\<open>delete_user\<close> prints the
  not-found message, ends without an error and leaves the table, and so the number of
  rows, unchanged.
\<close>

theorem delete_user_not_found:
  assumes "\<forall>r \<in> set t. username r \<noteq> u"
  shows "delete_user t u =
           \<lparr>db = t, printed = [Text (u @ '' not found! Unable to delete user.'')],
            raised = None\<rparr>
         \<and> length (db (delete_user t u)) = length t"
  using assms by (simp add: delete_user_def select_none)

theorem delete_user_not_found_witness:
  "''carol'' \<notin> set (map username
       [\<lparr>uid = Some 1, username = ''bob'', email = ''bob@mail.com'', password = ''bobpass''\<rparr>])
   \<and> delete_user
        [\<lparr>uid = Some 1, username = ''bob'', email = ''bob@mail.com'', password = ''bobpass''\<rparr>]
        ''carol''
     = \<lparr>db = [\<lparr>uid = Some 1, username = ''bob'', email = ''bob@mail.com'',
                password = ''bobpass''\<rparr>],
        printed = [Text ''carol not found! Unable to delete user.''], raised = None\<rparr>"
  using delete_user_not_found [of
      "[\<lparr>uid = Some 1, username = ''bob'', email = ''bob@mail.com'', password = ''bobpass''\<rparr>]"
      "''carol''"]
  by simp

text \<open>
  C9. From any table, \<^verbatim>\<open>initialize\<close> leaves a table of exactly one row, the seed
  user bob, prints the confirmation and ends without an error.
\<close>

theorem initialize_single_seed_user:
  "initialize t =
     \<lparr>db = [\<lparr>uid = Some 1, username = ''bob'', email = ''bob@mail.com'',
             password = ''bobpass''\<rparr>],
      printed = [Text ''Database Initialized''], raised = None\<rparr>
   \<and> length (db (initialize t)) = 1"
  by (simp add: initialize_eq)

theorem initialize_single_seed_user_witness:
  "db (initialize
        [\<lparr>uid = Some 4, username = ''dave'', email = ''dave@mail.com'', password = ''d''\<rparr>,
         \<lparr>uid = Some 7, username = ''erin'', email = ''erin@mail.com'', password = ''e''\<rparr>])
   = [\<lparr>uid = Some 1, username = ''bob'', email = ''bob@mail.com'', password = ''bobpass''\<rparr>]"
  using initialize_single_seed_user [of
      "[\<lparr>uid = Some 4, username = ''dave'', email = ''dave@mail.com'', password = ''d''\<rparr>,
        \<lparr>uid = Some 7, username = ''erin'', email = ''erin@mail.com'', password = ''e''\<rparr>]"]
  by simp

text \<open>
  C10. On a table that is not empty, \<^verbatim>\<open>get_user_from_partial\<close> with the empty query
  builds the pattern \<^verbatim>\<open>%%\<close>, which every username and email matches: it prints
  every row, in storage order, and not the no-matches message.
\<close>

theorem get_user_from_partial_empty_query:
  assumes "t \<noteq> []"
  shows "get_user_from_partial t [] = \<lparr>db = t, printed = map Rec t, raised = None\<rparr>"
  using assms by (simp add: get_user_from_partial_def ilike_empty)

theorem get_user_from_partial_empty_query_witness:
  "[\<lparr>uid = Some 1, username = ''bob'', email = ''bob@mail.com'', password = ''bobpass''\<rparr>,
    \<lparr>uid = Some 2, username = ''alice'', email = ''alice@mail.com'', password = ''pw''\<rparr>] \<noteq> []
   \<and> printed (get_user_from_partial
        [\<lparr>uid = Some 1, username = ''bob'', email = ''bob@mail.com'', password = ''bobpass''\<rparr>,
         \<lparr>uid = Some 2, username = ''alice'', email = ''alice@mail.com'', password = ''pw''\<rparr>]
        [])
     = [Rec \<lparr>uid = Some 1, username = ''bob'', email = ''bob@mail.com'',
             password = ''bobpass''\<rparr>,
        Rec \<lparr>uid = Some 2, username = ''alice'', email = ''alice@mail.com'',
             password = ''pw''\<rparr>]"
  using get_user_from_partial_empty_query [of
      "[\<lparr>uid = Some 1, username = ''bob'', email = ''bob@mail.com'', password = ''bobpass''\<rparr>,
        \<lparr>uid = Some 2, username = ''alice'', email = ''alice@mail.com'', password = ''pw''\<rparr>]"]
  by simp

text \<open>
  C5. \<^verbatim>\<open>get_user_from_partial\<close> is to print all and only the rows where the query
  is a case-insensitive substring of the username or of the email. The code pastes the
  query into the \<^verbatim>\<open>LIKE\<close> pattern without escaping it, so a \<^verbatim>\<open>_\<close> or \<^verbatim>\<open>%\<close>
  of the query is read as a wildcard and the claim fails: the query \<^verbatim>\<open>john_doe\<close>
  prints the user \<^verbatim>\<open>johnXdoe\<close>, although it is a substring neither of that username
  nor of that email.
\<close>

theorem get_user_from_partial_wildcard_failing_input:
  "printed (get_user_from_partial
      [\<lparr>uid = Some 1, username = ''bob'', email = ''bob@mail.com'', password = ''bobpass''\<rparr>,
       \<lparr>uid = Some 2, username = ''johnXdoe'', email = ''jx@mail.com'', password = ''pw''\<rparr>]
      ''john_doe'')
    = [Rec \<lparr>uid = Some 2, username = ''johnXdoe'', email = ''jx@mail.com'', password = ''pw''\<rparr>]
   \<and> \<not> ci_substring ''john_doe'' ''johnXdoe''
   \<and> \<not> ci_substring ''john_doe'' ''jx@mail.com''"
  by code_simp

text \<open>
  The defect is confined to the wildcard characters: for a query without \<^verbatim>\<open>%\<close> and
  \<^verbatim>\<open>_\<close> the rows printed are all and only those where the query is a
  case-insensitive substring of the username or of the email, in storage order, and the
  no-matches message is printed when there is none.
\<close>

lemma get_user_from_partial_plain_query:
  assumes "CHR ''%'' \<notin> set q" and "CHR ''_'' \<notin> set q"
  shows "get_user_from_partial t q =
     (let ms = filter (\<lambda>r. ci_substring q (username r) \<or> ci_substring q (email r)) t
      in \<lparr>db = t,
          printed = (if ms = []
                     then [Text (''No matches for '' @ [CHR 0x27] @ q @ [CHR 0x27] @ ''.'')]
                     else map Rec ms),
          raised = None\<rparr>)"
proof -
  have eq: "\<And>s. ilike s (CHR ''%'' # q @ ''%'') = ci_substring q s"
    using ilike_substring [OF assms] by simp
  show ?thesis
    by (simp add: get_user_from_partial_def Let_def eq disj_commute)
qed

text \<open>
  C8. In a table that satisfies the invariant and has a row with the username, when
  the new email is the email of another row, \<^verbatim>\<open>change_email\<close> ends with the storage's
  \<^verbatim>\<open>IntegrityError\<close>, which nothing catches: no message is printed and the table is
  the one before.
\<close>

theorem change_email_taken_raises:
  assumes "db_invariant t"
    and "u \<in> username ` set t"
    and "\<exists>x \<in> set t. username x \<noteq> u \<and> email x = e"
  shows "change_email t u e = \<lparr>db = t, printed = [], raised = Some IntegrityError\<rparr>"
proof -
  from assms(2) obtain r where sel: "select_by_username t u = Some r"
    using select_present by blast
  then have r: "r \<in> set t" "username r = u"
    by (simp_all add: select_some)
  from assms(3) obtain x where x: "x \<in> set t" "username x \<noteq> u" "email x = e"
    by blast
  from assms(1) have "distinct (map uid t)"
    by (simp add: db_invariant_def)
  with r x have "uid x \<noteq> uid r"
    by (auto dest: distinct_uid_eq)
  with x have "commit_update t (r\<lparr>email := e\<rparr>) = Inl IntegrityError"
    by (auto simp: commit_update_def)
  with sel show ?thesis
    by (simp add: change_email_def)
qed

theorem change_email_taken_raises_witness:
  "db_invariant
     [\<lparr>uid = Some 1, username = ''bob'', email = ''bob@mail.com'', password = ''bobpass''\<rparr>,
      \<lparr>uid = Some 2, username = ''alice'', email = ''alice@mail.com'', password = ''pw''\<rparr>]
   \<and> raised (change_email
        [\<lparr>uid = Some 1, username = ''bob'', email = ''bob@mail.com'', password = ''bobpass''\<rparr>,
         \<lparr>uid = Some 2, username = ''alice'', email = ''alice@mail.com'', password = ''pw''\<rparr>]
        ''bob'' ''alice@mail.com'') = Some IntegrityError"
proof -
  let ?t = "[\<lparr>uid = Some 1, username = ''bob'', email = ''bob@mail.com'', password = ''bobpass''\<rparr>,
      \<lparr>uid = Some 2, username = ''alice'', email = ''alice@mail.com'', password = ''pw''\<rparr>]"
  have inv: "db_invariant ?t"
    by (simp add: db_invariant_def)
  have present: "''bob'' \<in> username ` set ?t"
    by simp
  have taken: "\<exists>x \<in> set ?t. username x \<noteq> ''bob'' \<and> email x = ''alice@mail.com''"
    by simp
  show ?thesis
    using inv change_email_taken_raises [OF inv present taken] by simp
qed

text \<open>
  C4, as stated, fails when the new email is the email of another row: alice's email is
  not changed to bob's, the command ends with an error and the table is the one before.
\<close>

theorem change_email_counterexample:
  "change_email
     [\<lparr>uid = Some 1, username = ''bob'', email = ''bob@mail.com'', password = ''bobpass''\<rparr>,
      \<lparr>uid = Some 2, username = ''alice'', email = ''alice@mail.com'', password = ''pw''\<rparr>]
     ''alice'' ''bob@mail.com''
   = \<lparr>db = [\<lparr>uid = Some 1, username = ''bob'', email = ''bob@mail.com'',
              password = ''bobpass''\<rparr>,
            \<lparr>uid = Some 2, username = ''alice'', email = ''alice@mail.com'',
              password = ''pw''\<rparr>],
      printed = [], raised = Some IntegrityError\<rparr>"
  by (simp add: change_email_def select_by_username_def commit_update_def)

text \<open>
  C4, amended. In a table that satisfies the invariant and has a row with the username,
  when no other row has the new email, \<^verbatim>\<open>change_email\<close> sets the email of that row to
  the new value and leaves its other fields and every other row as they were; it prints
  the confirmation and ends without an error.
\<close>

theorem change_email_updates_one_record:
  assumes "db_invariant t"
    and "u \<in> username ` set t"
    and "\<forall>x \<in> set t. username x \<noteq> u \<longrightarrow> email x \<noteq> e"
  shows "change_email t u e =
           \<lparr>db = map (\<lambda>x. if username x = u then x\<lparr>email := e\<rparr> else x) t,
            printed = [Text (''Updated '' @ u @ [CHR 0x27] @ ''s email to '' @ e)],
            raised = None\<rparr>"
proof -
  from assms(2) obtain r where sel: "select_by_username t u = Some r"
    using select_present by blast
  then have r: "r \<in> set t" "username r = u"
    by (simp_all add: select_some)
  from assms(1) have du: "distinct (map uid t)" and dn: "distinct (map username t)"
    by (simp_all add: db_invariant_def)
  have same: "\<And>x. x \<in> set t \<Longrightarrow> (uid x = uid r) = (username x = u)"
  proof -
    fix x assume x: "x \<in> set t"
    have "username x = u \<Longrightarrow> x = r"
      using dn x r by (metis distinct_map inj_onD)
    moreover have "uid x = uid r \<Longrightarrow> x = r"
      using du x r by (blast dest: distinct_uid_eq)
    ultimately show "(uid x = uid r) = (username x = u)"
      using r by blast
  qed
  have free: "\<not> (\<exists>x \<in> set t. uid x \<noteq> uid r \<and> (username x = username r \<or> email x = e))"
    using assms(3) same r by auto
  have "map (\<lambda>x. if uid x = uid r then r\<lparr>email := e\<rparr> else x) t
        = map (\<lambda>x. if username x = u then x\<lparr>email := e\<rparr> else x) t"
  proof (rule map_cong [OF refl])
    fix x assume x: "x \<in> set t"
    show "(if uid x = uid r then r\<lparr>email := e\<rparr> else x)
          = (if username x = u then x\<lparr>email := e\<rparr> else x)"
    proof (cases "username x = u")
      case True
      then have "x = r"
        using dn x r by (metis distinct_map inj_onD)
      then show ?thesis using r by simp
    next
      case False
      then show ?thesis using same [OF x] by simp
    qed
  qed
  with free have "commit_update t (r\<lparr>email := e\<rparr>)
        = Inr (map (\<lambda>x. if username x = u then x\<lparr>email := e\<rparr> else x) t)"
    by (simp add: commit_update_def)
  with sel r show ?thesis
    by (simp add: change_email_def)
qed

theorem change_email_updates_one_record_witness:
  "db_invariant
     [\<lparr>uid = Some 1, username = ''bob'', email = ''bob@mail.com'', password = ''bobpass''\<rparr>,
      \<lparr>uid = Some 2, username = ''alice'', email = ''alice@mail.com'', password = ''pw''\<rparr>]
   \<and> change_email
        [\<lparr>uid = Some 1, username = ''bob'', email = ''bob@mail.com'', password = ''bobpass''\<rparr>,
         \<lparr>uid = Some 2, username = ''alice'', email = ''alice@mail.com'', password = ''pw''\<rparr>]
        ''alice'' ''al@post.org''
     = \<lparr>db = [\<lparr>uid = Some 1, username = ''bob'', email = ''bob@mail.com'',
                password = ''bobpass''\<rparr>,
              \<lparr>uid = Some 2, username = ''alice'', email = ''al@post.org'',
                password = ''pw''\<rparr>],
        printed = [Text (''Updated alice'' @ [CHR 0x27] @ ''s email to al@post.org'')],
        raised = None\<rparr>"
proof -
  let ?t = "[\<lparr>uid = Some 1, username = ''bob'', email = ''bob@mail.com'', password = ''bobpass''\<rparr>,
      \<lparr>uid = Some 2, username = ''alice'', email = ''alice@mail.com'', password = ''pw''\<rparr>]"
  have inv: "db_invariant ?t"
    by (simp add: db_invariant_def)
  have present: "''alice'' \<in> username ` set ?t"
    by simp
  have free: "\<forall>x \<in> set ?t. username x \<noteq> ''alice'' \<longrightarrow> email x \<noteq> ''al@post.org''"
    by simp
  show ?thesis
    using inv change_email_updates_one_record [OF inv present free] by simp
qed

text \<open>
  C6. \<^verbatim>\<open>get_first_n_users\<close> prints the page that limit and offset cut out of the
  table in storage order, which is insertion order, since a created row goes to the end
  of the table. On a table of five rows, limit 2 and offset 0 give exactly the first
  two rows, limit 2 and offset 4 exactly the fifth.
\<close>

theorem get_first_n_users_page:
  "(0 \<le> limit \<and> 0 \<le> offset \<longrightarrow>
      get_first_n_users t limit offset =
        \<lparr>db = t,
         printed = (if take (nat limit) (drop (nat offset) t) = [] then [Text ''No users found.'']
                    else map Rec (take (nat limit) (drop (nat offset) t))),
         raised = None\<rparr>)
   \<and> (length t = 5 \<longrightarrow>
        printed (get_first_n_users t 2 0) = [Rec (t ! 0), Rec (t ! 1)]
        \<and> printed (get_first_n_users t 2 4) = [Rec (t ! 4)])
   \<and> ((\<forall>r \<in> set t. username r \<noteq> u \<and> email r \<noteq> e) \<longrightarrow>
        db (create_user t u e p) =
          t @ [\<lparr>uid = Some (next_id t), username = u, email = e, password = p\<rparr>])"
proof (intro conjI impI)
  assume "0 \<le> limit \<and> 0 \<le> offset"
  then show "get_first_n_users t limit offset =
        \<lparr>db = t,
         printed = (if take (nat limit) (drop (nat offset) t) = [] then [Text ''No users found.'']
                    else map Rec (take (nat limit) (drop (nat offset) t))),
         raised = None\<rparr>"
    by (simp add: get_first_n_users_def page_def Let_def)
next
  assume "length t = 5"
  then obtain a b c d f where t: "t = [a, b, c, d, f]"
    by (auto simp: eval_nat_numeral length_Suc_conv)
  show "printed (get_first_n_users t 2 0) = [Rec (t ! 0), Rec (t ! 1)]"
    by (simp add: t get_first_n_users_def page_def eval_nat_numeral)
  show "printed (get_first_n_users t 2 4) = [Rec (t ! 4)]"
    by (simp add: t get_first_n_users_def page_def eval_nat_numeral)
next
  assume "\<forall>r \<in> set t. username r \<noteq> u \<and> email r \<noteq> e"
  then show "db (create_user t u e p) =
          t @ [\<lparr>uid = Some (next_id t), username = u, email = e, password = p\<rparr>]"
    by (simp add: create_user_def commit_insert_def User_def Let_def)
qed

theorem get_first_n_users_page_witness:
  "length
     [\<lparr>uid = Some 1, username = ''u1'', email = ''e1'', password = ''p1''\<rparr>,
      \<lparr>uid = Some 2, username = ''u2'', email = ''e2'', password = ''p2''\<rparr>,
      \<lparr>uid = Some 3, username = ''u3'', email = ''e3'', password = ''p3''\<rparr>,
      \<lparr>uid = Some 4, username = ''u4'', email = ''e4'', password = ''p4''\<rparr>,
      \<lparr>uid = Some 5, username = ''u5'', email = ''e5'', password = ''p5''\<rparr>] = 5
   \<and> printed (get_first_n_users
       [\<lparr>uid = Some 1, username = ''u1'', email = ''e1'', password = ''p1''\<rparr>,
        \<lparr>uid = Some 2, username = ''u2'', email = ''e2'', password = ''p2''\<rparr>,
        \<lparr>uid = Some 3, username = ''u3'', email = ''e3'', password = ''p3''\<rparr>,
        \<lparr>uid = Some 4, username = ''u4'', email = ''e4'', password = ''p4''\<rparr>,
        \<lparr>uid = Some 5, username = ''u5'', email = ''e5'', password = ''p5''\<rparr>] 2 0)
     = [Rec \<lparr>uid = Some 1, username = ''u1'', email = ''e1'', password = ''p1''\<rparr>,
        Rec \<lparr>uid = Some 2, username = ''u2'', email = ''e2'', password = ''p2''\<rparr>]
   \<and> printed (get_first_n_users
       [\<lparr>uid = Some 1, username = ''u1'', email = ''e1'', password = ''p1''\<rparr>,
        \<lparr>uid = Some 2, username = ''u2'', email = ''e2'', password = ''p2''\<rparr>,
        \<lparr>uid = Some 3, username = ''u3'', email = ''e3'', password = ''p3''\<rparr>,
        \<lparr>uid = Some 4, username = ''u4'', email = ''e4'', password = ''p4''\<rparr>,
        \<lparr>uid = Some 5, username = ''u5'', email = ''e5'', password = ''p5''\<rparr>] 2 4)
     = [Rec \<lparr>uid = Some 5, username = ''u5'', email = ''e5'', password = ''p5''\<rparr>]"
  using get_first_n_users_page [of 2 0
       "[\<lparr>uid = Some 1, username = ''u1'', email = ''e1'', password = ''p1''\<rparr>,
        \<lparr>uid = Some 2, username = ''u2'', email = ''e2'', password = ''p2''\<rparr>,
        \<lparr>uid = Some 3, username = ''u3'', email = ''e3'', password = ''p3''\<rparr>,
        \<lparr>uid = Some 4, username = ''u4'', email = ''e4'', password = ''p4''\<rparr>,
        \<lparr>uid = Some 5, username = ''u5'', email = ''e5'', password = ''p5''\<rparr>]"
       "''u6''" "''e6''" "''p6''"]
  by simp

text \<open>
  C3. In every reachable table the usernames are pairwise distinct and the emails are
  pairwise distinct, and this still holds after any command of the command set; an insert
  of a user whose username or email is already in the table fails with the
  constraint violation \<^verbatim>\<open>IntegrityError\<close>.
\<close>

theorem reachable_unique_username_email:
  assumes "reachable t"
  shows "distinct (map username t) \<and> distinct (map email t)
       \<and> distinct (map username (db (run c t))) \<and> distinct (map email (db (run c t)))
       \<and> ((\<exists>x \<in> set t. username x = u \<or> email x = e) \<longrightarrow>
            commit_insert t (User u e p) = Inl IntegrityError)"
proof -
  from assms have "db_invariant t"
    by (rule reachable_invariant)
  moreover from this have "db_invariant (db (run c t))"
    by (rule run_invariant)
  moreover have "(\<exists>x \<in> set t. username x = u \<or> email x = e) \<longrightarrow>
            commit_insert t (User u e p) = Inl IntegrityError"
    by (simp add: commit_insert_def User_def)
  ultimately show ?thesis
    by (simp add: db_invariant_def)
qed

theorem reachable_unique_username_email_witness:
  "reachable (db (create_user (db (initialize [])) ''alice'' ''alice@mail.com'' ''pw''))
   \<and> distinct (map username
        (db (create_user (db (initialize [])) ''alice'' ''alice@mail.com'' ''pw'')))
   \<and> distinct (map email
        (db (run (ChangeEmail ''alice'' ''bob@mail.com'')
          (db (create_user (db (initialize [])) ''alice'' ''alice@mail.com'' ''pw'')))))
   \<and> commit_insert (db (create_user (db (initialize [])) ''alice'' ''alice@mail.com'' ''pw''))
        (User ''bob'' ''rob@mail.com'' ''x'') = Inl IntegrityError"
proof -
  let ?t = "db (create_user (db (initialize [])) ''alice'' ''alice@mail.com'' ''pw'')"
  have "reachable (db (run (CreateUser ''alice'' ''alice@mail.com'' ''pw'') (db (initialize []))))"
    by (rule reachable_step [OF reachable_init])
  then have reach: "reachable ?t"
    by simp
  have t: "?t =
     [\<lparr>uid = Some 1, username = ''bob'', email = ''bob@mail.com'', password = ''bobpass''\<rparr>,
      \<lparr>uid = Some 2, username = ''alice'', email = ''alice@mail.com'', password = ''pw''\<rparr>]"
    by (simp add: initialize_eq create_user_def commit_insert_def User_def Let_def next_id_def
        row_id_def)
  have taken: "\<exists>x \<in> set ?t. username x = ''bob'' \<or> email x = ''rob@mail.com''"
    by (simp add: t)
  show ?thesis
    using reach taken
      reachable_unique_username_email [OF reach,
        of "ChangeEmail ''alice'' ''bob@mail.com''" "''bob''" "''rob@mail.com''" "''x''"]
    by blast
qed

end
